theory Spec2Isabelle
  imports
    Complex_Main
    "HOL-Library.Product_Lexorder"
    "HOL-Library.List_Lexorder"
    "HOL-Library.Char_ord"
begin

section \<open>Timestamps and price frames\<close>

text \<open>
  A pandas \<^verbatim>\<open>Timestamp\<close> is a calendar date (year, month, day) with a clock
  (hour, minute, and the rest of the minute in nanoseconds). Both are tuples under the
  lexicographic order, which is the chronological order.
  Python floats (cash, prices, volumes) are read as real numbers: rounding is not
  part of the model.
\<close>

type_synonym date = "int \<times> nat \<times> nat"
type_synonym clock = "nat \<times> nat \<times> nat"
type_synonym timestamp = "date \<times> clock"

text \<open>
  A time string \<^verbatim>\<open>"HH:MM"\<close>, split into its two numbers. The numbers are not
  bounded by the type: \<^verbatim>\<open>"25:00"\<close> is such a string, and building a timestamp from
  it raises.
\<close>

type_synonym hhmm = "nat \<times> nat"

definition valid_hhmm :: "hhmm \<Rightarrow> bool" where
  "valid_hhmm t \<longleftrightarrow> fst t < 24 \<and> snd t < 60"

definition date_of :: "timestamp \<Rightarrow> date" where
  \<comment> \<open>\<^verbatim>\<open>ts.date()\<close>\<close>
  "date_of ts = fst ts"

definition year_of :: "timestamp \<Rightarrow> int" where
  \<comment> \<open>\<^verbatim>\<open>ts.year\<close>\<close>
  "year_of ts = fst (fst ts)"

definition month_of :: "timestamp \<Rightarrow> nat" where
  "month_of ts = fst (snd (fst ts))"

definition hour_of :: "timestamp \<Rightarrow> nat" where
  "hour_of ts = fst (snd ts)"

definition minute_of :: "timestamp \<Rightarrow> nat" where
  "minute_of ts = fst (snd (snd ts))"

definition midnight :: "date \<Rightarrow> timestamp" where
  \<comment> \<open>\<^verbatim>\<open>pd.to_datetime(d)\<close> of a calendar date, \<^verbatim>\<open>pd.Timestamp(year=y, month=m, day=d)\<close>\<close>
  "midnight d = (d, (0, 0, 0))"

definition at_clock :: "date \<Rightarrow> hhmm \<Rightarrow> timestamp" where
  \<comment> \<open>the timestamp on day \<open>d\<close> at the clock time \<open>t\<close>\<close>
  "at_clock d t = (d, (fst t, snd t, 0))"

text \<open>
  A price frame is the list of its rows in index order; \<open>stamp\<close> is the row's index
  entry. The index is a \<^verbatim>\<open>DatetimeIndex\<close> by type, so the \<^verbatim>\<open>isinstance\<close>
  check of the calendar module has no failing branch here.
\<close>

record bar =
  stamp :: timestamp
  Open :: real
  High :: real
  Low :: real
  Close :: real
  Volume :: real

type_synonym frame = "bar list"

datatype error = ValueError | RuntimeError | KeyError | TypeError | IndexError | ZeroDivisionError

definition make_timestamp :: "date \<Rightarrow> hhmm \<Rightarrow> error + timestamp" where
  \<comment> \<open>\<^verbatim>\<open>pd.Timestamp(f"{d} {time_str}")\<close>: an hour of 24 or more, or a minute of 60 or
      more, is a ValueError\<close>
  "make_timestamp d t = (if valid_hhmm t then Inr (at_clock d t) else Inl ValueError)"

definition on_date :: "frame \<Rightarrow> date \<Rightarrow> frame" where
  \<comment> \<open>\<^verbatim>\<open>df[df.index.date == d]\<close>\<close>
  "on_date df d = filter (\<lambda>b. date_of (stamp b) = d) df"

definition loc_bar :: "frame \<Rightarrow> timestamp \<Rightarrow> error + bar" where
  \<comment> \<open>\<^verbatim>\<open>df.loc[ts]\<close> used as one row: a missing label is a KeyError; a repeated label
      gives a sub-frame, on which the scalar use that follows raises\<close>
  "loc_bar df ts =
     (case filter (\<lambda>b. stamp b = ts) df of
        [] \<Rightarrow> Inl KeyError
      | [b] \<Rightarrow> Inr b
      | _ \<Rightarrow> Inl ValueError)"

definition loc_Close :: "frame \<Rightarrow> timestamp \<Rightarrow> error + real" where
  \<comment> \<open>\<^verbatim>\<open>float(df.loc[ts, "Close"])\<close>: \<^verbatim>\<open>float\<close> of a Series of several rows is a TypeError\<close>
  "loc_Close df ts =
     (case filter (\<lambda>b. stamp b = ts) df of
        [] \<Rightarrow> Inl KeyError
      | [b] \<Rightarrow> Inr (Close b)
      | _ \<Rightarrow> Inl TypeError)"

section \<open>Calendar resolver (utils/calendar.py)\<close>

definition py_slice_from :: "'a list \<Rightarrow> int \<Rightarrow> 'a list" where
  \<comment> \<open>\<^verbatim>\<open>xs[i:]\<close>: a negative start counts from the end, and \<^verbatim>\<open>-0\<close> is \<^verbatim>\<open>0\<close>\<close>
  "py_slice_from xs i =
     (if i < 0 then drop (nat (int (length xs) + i)) xs else drop (nat i) xs)"

definition py_slice_to :: "'a list \<Rightarrow> int \<Rightarrow> 'a list" where
  \<comment> \<open>\<^verbatim>\<open>xs[:j]\<close>\<close>
  "py_slice_to xs j =
     (if j < 0 then take (nat (int (length xs) + j)) xs else take (nat j) xs)"

definition pick_last_n :: "'a list \<Rightarrow> int \<Rightarrow> 'a list" where
  \<comment> \<open>\<^verbatim>\<open>dates[-n:] if len(dates) >= n else dates\<close>\<close>
  "pick_last_n dates n =
     (if n \<le> int (length dates) then py_slice_from dates (- n) else dates)"

definition pick_first_n :: "'a list \<Rightarrow> int \<Rightarrow> 'a list" where
  \<comment> \<open>\<^verbatim>\<open>dates[:n] if len(dates) >= n else dates\<close>\<close>
  "pick_first_n dates n =
     (if n \<le> int (length dates) then py_slice_to dates n else dates)"

definition year_dates :: "frame \<Rightarrow> int \<Rightarrow> timestamp list" where
  \<comment> \<open>\<^verbatim>\<open>pd.DatetimeIndex(sorted(pd.to_datetime(dfy.index.date).unique()))\<close>\<close>
  "year_dates df y =
     map midnight (sort (remdups (map (\<lambda>b. date_of (stamp b))
       (filter (\<lambda>b. year_of (stamp b) = y) df))))"

definition get_trading_days_around_date ::
  "frame \<Rightarrow> timestamp \<Rightarrow> int \<Rightarrow> int \<Rightarrow> error + (timestamp list \<times> timestamp list)" where
  "get_trading_days_around_date df anchor_date before_days after_days =
     (let y = year_of anchor_date;
          dfy = filter (\<lambda>b. year_of (stamp b) = y) df
      in if dfy = [] then Inl ValueError
         else
           let dates = year_dates df y;
               pre = filter (\<lambda>d. d < anchor_date) dates;
               post = filter (\<lambda>d. anchor_date < d) dates
           in Inr (pick_last_n pre before_days, pick_first_n post after_days))"

section \<open>Execution-bar locator (execution/timing.py)\<close>

definition find_execution_bar :: "frame \<Rightarrow> timestamp \<Rightarrow> hhmm \<Rightarrow> error + timestamp" where
  "find_execution_bar df target_date time_str =
     (let same_day = on_date df (date_of target_date)
      in if same_day = [] then Inl RuntimeError
         else if length same_day = 1 then Inr (stamp (hd same_day))
         else
           (case make_timestamp (date_of target_date) time_str of
              Inl e \<Rightarrow> Inl e
            | Inr target_time \<Rightarrow>
                let later_bars = filter (\<lambda>t. target_time \<le> t) (map stamp same_day)
                in if later_bars \<noteq> [] then Inr (hd later_bars)
                   else Inr (stamp (last same_day))))"

definition digit_char :: "nat \<Rightarrow> char" where
  \<comment> \<open>the decimal digit of \<open>n mod 10\<close>; the index is always in range\<close>
  "digit_char n = ''0123456789'' ! (n mod 10)"

definition two_digits :: "nat \<Rightarrow> string" where
  "two_digits n = [digit_char (n div 10), digit_char n]"

definition strftime_HM :: "timestamp \<Rightarrow> string" where
  \<comment> \<open>\<^verbatim>\<open>timestamp.strftime("%H:%M")\<close>\<close>
  "strftime_HM ts = two_digits (hour_of ts) @ '':'' @ two_digits (minute_of ts)"

definition is_market_hours :: "timestamp \<Rightarrow> string \<Rightarrow> string \<Rightarrow> bool" where
  \<comment> \<open>Python compares the strings lexicographically, character by character\<close>
  "is_market_hours ts market_open market_close =
     (let time_str = strftime_HM ts in market_open \<le> time_str \<and> time_str \<le> market_close)"

section \<open>Order generator (strategies/christmas_ladder.py)\<close>

text \<open>
  A row of an order table. The column \<^verbatim>\<open>value\<close> of the source is the field \<open>val\<close>.
\<close>

record order =
  time :: timestamp
  side :: string
  qty :: int
  price :: real
  val :: real

record XmasParams =
  year :: int
  symbol :: string
  buy_days :: int
  sell_days :: int
  sell_execution_time :: hhmm

text \<open>The locals the two loops of \<^verbatim>\<open>generate_orders\<close> update.\<close>

record gen_state =
  st_orders :: "order list"
  st_cash :: real
  st_position :: int

definition buy_body :: "frame \<Rightarrow> real \<Rightarrow> timestamp \<Rightarrow> gen_state \<Rightarrow> error + gen_state" where
  \<comment> \<open>one pass of the buy loop; \<^verbatim>\<open>continue\<close> returns the state as it is.
      Floor division of floats by zero raises ZeroDivisionError.\<close>
  "buy_body df alloc d st =
     (let bars = on_date df (date_of d)
      in if bars = [] then Inl IndexError
         else
           let ts = stamp (last bars)
           in case loc_Close df ts of
                Inl e \<Rightarrow> Inl e
              | Inr px \<Rightarrow>
                  if px = 0 then Inl ZeroDivisionError
                  else
                    let q = \<lfloor>alloc / px\<rfloor>
                    in if q \<le> 0 then Inr st
                       else Inr \<lparr>st_orders = st_orders st @
                                   [\<lparr>time = ts, side = ''BUY'', qty = q, price = px,
                                     val = - (of_int q) * px\<rparr>],
                                 st_cash = st_cash st - of_int q * px,
                                 st_position = st_position st + q\<rparr>)"

fun buy_loop :: "frame \<Rightarrow> real \<Rightarrow> timestamp list \<Rightarrow> gen_state \<Rightarrow> error + gen_state" where
  "buy_loop df alloc [] st = Inr st"
| "buy_loop df alloc (d # ds) st =
     (case buy_body df alloc d st of
        Inl e \<Rightarrow> Inl e
      | Inr st' \<Rightarrow> buy_loop df alloc ds st')"

definition sell_body :: "frame \<Rightarrow> XmasParams \<Rightarrow> int \<Rightarrow> timestamp \<Rightarrow> gen_state \<Rightarrow> error + gen_state" where
  \<comment> \<open>one pass of the sell loop after the \<^verbatim>\<open>break\<close> test, for the date of 1-based index \<open>i\<close>\<close>
  "sell_body df p i d st =
     (let sell_qty = (if i < sell_days p then st_position st div (sell_days p - i + 1)
                      else st_position st)
      in if sell_qty \<le> 0 then Inr st
         else
           case find_execution_bar df d (sell_execution_time p) of
             Inl e \<Rightarrow> Inl e
           | Inr ts \<Rightarrow>
               (case loc_Close df ts of
                  Inl e \<Rightarrow> Inl e
                | Inr px \<Rightarrow>
                    Inr \<lparr>st_orders = st_orders st @
                           [\<lparr>time = ts, side = ''SELL'', qty = sell_qty, price = px,
                             val = of_int sell_qty * px\<rparr>],
                         st_cash = st_cash st + of_int sell_qty * px,
                         st_position = st_position st - sell_qty\<rparr>))"

fun sell_loop :: "frame \<Rightarrow> XmasParams \<Rightarrow> int \<Rightarrow> timestamp list \<Rightarrow> gen_state \<Rightarrow> error + gen_state" where
  "sell_loop df p i [] st = Inr st"
| "sell_loop df p i (d # ds) st =
     (if st_position st \<le> 0 then Inr st
      else case sell_body df p i d st of
             Inl e \<Rightarrow> Inl e
           | Inr st' \<Rightarrow> sell_loop df p (i + 1) ds st')"

definition xmas_of :: "XmasParams \<Rightarrow> timestamp" where
  \<comment> \<open>\<^verbatim>\<open>pd.Timestamp(year=p.year, month=12, day=25)\<close>\<close>
  "xmas_of p = midnight (year p, 12, 25)"

text \<open>
  \<^verbatim>\<open>sort_values("time")\<close> is \<open>sort_key time\<close>. The generated timestamps lie on
  different days, one per order; how pandas orders rows of equal time is not modelled.
\<close>

definition generate_orders :: "frame \<Rightarrow> real \<Rightarrow> XmasParams \<Rightarrow> error + order list" where
  "generate_orders df cash p =
     (case get_trading_days_around_date df (xmas_of p) (buy_days p) (sell_days p) of
        Inl e \<Rightarrow> Inl e
      | Inr (buy_dates, sell_dates) \<Rightarrow>
          (let alloc = cash / real (max (length buy_dates) 1)
           in (case buy_loop df alloc buy_dates
                      \<lparr>st_orders = [], st_cash = cash, st_position = 0\<rparr> of
                 Inl e \<Rightarrow> Inl e
               | Inr st1 \<Rightarrow>
                   (case sell_loop df p 1 sell_dates st1 of
                      Inl e \<Rightarrow> Inl e
                    | Inr st2 \<Rightarrow>
                        if st_orders st2 = [] then Inr []
                        else Inr (sort_key time (st_orders st2))))))"

section \<open>Execution simulator (execution/simulator.py)\<close>

record exec_order = order +
  original_time :: timestamp
  slippage_bps :: real

definition validate_order_timing :: "order \<Rightarrow> frame \<Rightarrow> bool" where
  "validate_order_timing ord market_data =
     (let order_date = date_of (time ord)
      in if order_date \<notin> set (map (\<lambda>b. date_of (stamp b)) market_data) then False
         else is_market_hours (time ord) ''09:30'' ''16:00'')"

definition apply_slippage :: "real \<Rightarrow> bar \<Rightarrow> string \<Rightarrow> real \<Rightarrow> real" where
  "apply_slippage intended_price market_bar sd slippage =
     (let slippage_multiplier = slippage / 10000
      in if sd = ''BUY''
         then min (intended_price * (1 + slippage_multiplier)) (High market_bar)
         else max (intended_price * (1 - slippage_multiplier)) (Low market_bar))"

definition check_liquidity :: "int \<Rightarrow> real \<Rightarrow> real \<Rightarrow> bool" where
  "check_liquidity order_qty bar_volume max_volume_pct =
     (if bar_volume \<le> 0 then False
      else of_int order_qty / bar_volume \<le> max_volume_pct)"

definition calculate_slippage_bps :: "real \<Rightarrow> real \<Rightarrow> real" where
  "calculate_slippage_bps intended_price execution_price =
     (if intended_price = 0 then 0
      else (execution_price - intended_price) / intended_price * 10000)"

definition execute_body :: "order \<Rightarrow> frame \<Rightarrow> real \<Rightarrow> bool \<Rightarrow> error + exec_order option" where
  \<comment> \<open>the body of the \<^verbatim>\<open>try\<close>: \<open>Inr None\<close> is \<^verbatim>\<open>continue\<close>, \<open>Inr (Some e)\<close> appends \<open>e\<close>\<close>
  "execute_body ord market_data slippage min_liquidity_check =
     (if \<not> validate_order_timing ord market_data then Inr None
      else
        case find_execution_bar market_data (time ord) (9, 30) of
          Inl e \<Rightarrow> Inl e
        | Inr execution_time \<Rightarrow>
            (case loc_bar market_data execution_time of
               Inl e \<Rightarrow> Inl e
             | Inr market_bar \<Rightarrow>
                 let execution_price =
                       apply_slippage (price ord) market_bar (side ord) slippage
                 in if min_liquidity_check
                       \<and> \<not> check_liquidity (qty ord) (Volume market_bar) (1 / 100)
                    then Inr None
                    else Inr (Some
                      \<lparr>time = execution_time, side = side ord, qty = qty ord,
                       price = execution_price,
                       val = (if side ord = ''BUY'' then - (of_int (qty ord)) * execution_price
                              else of_int (qty ord) * execution_price),
                       original_time = time ord,
                       slippage_bps = calculate_slippage_bps (price ord) execution_price\<rparr>)))"

definition execute_one :: "order \<Rightarrow> frame \<Rightarrow> real \<Rightarrow> bool \<Rightarrow> error + exec_order option" where
  \<comment> \<open>\<^verbatim>\<open>except (KeyError, RuntimeError): continue\<close>; any other error leaves the loop\<close>
  "execute_one ord market_data slippage min_liquidity_check =
     (case execute_body ord market_data slippage min_liquidity_check of
        Inl KeyError \<Rightarrow> Inr None
      | Inl RuntimeError \<Rightarrow> Inr None
      | r \<Rightarrow> r)"

fun execute_loop :: "order list \<Rightarrow> frame \<Rightarrow> real \<Rightarrow> bool \<Rightarrow> exec_order list \<Rightarrow> error + exec_order list" where
  "execute_loop [] market_data slippage chk executed_orders = Inr executed_orders"
| "execute_loop (ord # rest) market_data slippage chk executed_orders =
     (case execute_one ord market_data slippage chk of
        Inl e \<Rightarrow> Inl e
      | Inr None \<Rightarrow> execute_loop rest market_data slippage chk executed_orders
      | Inr (Some x) \<Rightarrow> execute_loop rest market_data slippage chk (executed_orders @ [x]))"

definition execute_orders :: "order list \<Rightarrow> frame \<Rightarrow> real \<Rightarrow> bool \<Rightarrow> error + exec_order list" where
  "execute_orders orders market_data slippage min_liquidity_check =
     (if orders = [] then Inr []
      else case execute_loop orders market_data slippage min_liquidity_check [] of
             Inl e \<Rightarrow> Inl e
           | Inr executed_orders \<Rightarrow>
               if executed_orders = [] then Inr []
               else Inr (sort_key time executed_orders))"

section \<open>Backtest engine (backtest/engine.py)\<close>

text \<open>The values a result dictionary holds, and the dictionary as a map from its keys.\<close>

datatype 'r pyval = PyInt int | PyFloat real | PyFrame "'r list"

definition run_backtest :: "'a order_scheme list \<Rightarrow> real \<Rightarrow> (string \<rightharpoonup> 'a order_scheme pyval)" where
  "run_backtest orders initial_cash =
     (if orders = [] then
        [''orders'' \<mapsto> PyFrame orders,
         ''initial_cash'' \<mapsto> PyFloat initial_cash,
         ''ending_cash'' \<mapsto> PyFloat initial_cash,
         ''remaining_shares'' \<mapsto> PyInt 0,
         ''remaining_value_mark'' \<mapsto> PyFloat 0,
         ''pnl'' \<mapsto> PyFloat 0,
         ''return_pct'' \<mapsto> PyFloat 0]
      else
        let cash_flow = sum_list (map val orders);
            ending_cash = initial_cash + cash_flow;
            bought = (if ''BUY'' \<in> set (map side orders)
                      then sum_list (map qty (filter (\<lambda>r. side r = ''BUY'') orders)) else 0);
            sold = (if ''SELL'' \<in> set (map side orders)
                    then sum_list (map qty (filter (\<lambda>r. side r = ''SELL'') orders)) else 0);
            remaining_shares = bought - sold;
            remaining_value_mark =
              (if remaining_shares > 0 \<and> orders \<noteq> []
               then of_int remaining_shares * price (last orders) else 0);
            total_value = ending_cash + remaining_value_mark;
            pnl = total_value - initial_cash;
            return_pct = (if initial_cash > 0 then pnl / initial_cash else 0)
        in [''orders'' \<mapsto> PyFrame orders,
            ''initial_cash'' \<mapsto> PyFloat initial_cash,
            ''ending_cash'' \<mapsto> PyFloat ending_cash,
            ''remaining_shares'' \<mapsto> PyInt remaining_shares,
            ''remaining_value_mark'' \<mapsto> PyFloat remaining_value_mark,
            ''total_value'' \<mapsto> PyFloat total_value,
            ''pnl'' \<mapsto> PyFloat pnl,
            ''return_pct'' \<mapsto> PyFloat return_pct])"

section \<open>Example inputs\<close>

definition mkbar :: "timestamp \<Rightarrow> real \<Rightarrow> real \<Rightarrow> real \<Rightarrow> real \<Rightarrow> bar" where
  "mkbar ts h l c v = \<lparr>stamp = ts, Open = c, High = h, Low = l, Close = c, Volume = v\<rparr>"

text \<open>The three orders of the test fixture \<^verbatim>\<open>sample_orders\<close>, and daily bars for their dates.\<close>

definition sample_orders :: "order list" where
  "sample_orders =
     [\<lparr>time = ((2023, 1, 15), (0, 0, 0)), side = ''BUY'', qty = 100, price = 105, val = - 10500\<rparr>,
      \<lparr>time = ((2023, 2, 15), (0, 0, 0)), side = ''BUY'', qty = 50, price = 110, val = - 5500\<rparr>,
      \<lparr>time = ((2023, 3, 15), (0, 0, 0)), side = ''SELL'', qty = 30, price = 115, val = 3450\<rparr>]"

definition daily_bars :: frame where
  "daily_bars =
     [mkbar ((2023, 1, 15), (0, 0, 0)) 106 104 105 1000000,
      mkbar ((2023, 2, 15), (0, 0, 0)) 111 109 110 1000000,
      mkbar ((2023, 3, 15), (0, 0, 0)) 116 114 115 1000000]"

text \<open>One day of intraday bars with no 10:30 bar, as in \<^verbatim>\<open>test_execution_bar_with_gaps\<close>.\<close>

definition gap_day :: frame where
  "gap_day =
     [mkbar ((2023, 6, 15), (9, 30, 0)) 101 99 100 1000000,
      mkbar ((2023, 6, 15), (10, 0, 0)) 102 100 101 1000000,
      mkbar ((2023, 6, 15), (11, 0, 0)) 103 101 102 1000000,
      mkbar ((2023, 6, 15), (16, 0, 0)) 104 102 103 1000000]"

text \<open>Four trading days around December 25, and a ladder of two buys and two sells on them.\<close>

definition xmas_week :: frame where
  "xmas_week =
     [mkbar ((2023, 12, 21), (16, 0, 0)) 12 9 10 1000000,
      mkbar ((2023, 12, 22), (10, 0, 0)) 12 9 10 1000000,
      mkbar ((2023, 12, 22), (16, 0, 0)) 12 9 10 1000000,
      mkbar ((2023, 12, 27), (9, 30, 0)) 12 9 11 1000000,
      mkbar ((2023, 12, 27), (11, 0, 0)) 12 9 11 1000000,
      mkbar ((2023, 12, 28), (10, 30, 0)) 12 9 11 1000000]"

definition ladder_params :: XmasParams where
  "ladder_params =
     \<lparr>year = 2023, symbol = ''TEST'', buy_days = 2, sell_days = 2,
      sell_execution_time = (10, 30)\<rparr>"

definition ladder_orders :: "order list" where
  "ladder_orders =
     [\<lparr>time = ((2023, 12, 21), (16, 0, 0)), side = ''BUY'', qty = 5, price = 10, val = - 50\<rparr>,
      \<lparr>time = ((2023, 12, 22), (16, 0, 0)), side = ''BUY'', qty = 5, price = 10, val = - 50\<rparr>,
      \<lparr>time = ((2023, 12, 27), (11, 0, 0)), side = ''SELL'', qty = 5, price = 11, val = 55\<rparr>,
      \<lparr>time = ((2023, 12, 28), (10, 30, 0)), side = ''SELL'', qty = 5, price = 11, val = 55\<rparr>]"

text \<open>A position of ten shares entering the sell loop of a one-day exit.\<close>

definition one_day_exit :: XmasParams where
  "one_day_exit =
     \<lparr>year = 2023, symbol = ''TEST'', buy_days = 2, sell_days = 1,
      sell_execution_time = (10, 30)\<rparr>"

definition holding_ten :: gen_state where
  "holding_ten = \<lparr>st_orders = [], st_cash = 0, st_position = 10\<rparr>"

definition sold_ten :: gen_state where
  "sold_ten =
     \<lparr>st_orders = [\<lparr>time = ((2023, 12, 27), (11, 0, 0)), side = ''SELL'', qty = 10,
                    price = 11, val = 110\<rparr>],
      st_cash = 110, st_position = 0\<rparr>"

text \<open>
  A series that ends in November, with the default parameters of \<^verbatim>\<open>XmasParams\<close>,
  as in \<^verbatim>\<open>test_no_market_data_around_christmas\<close>.
\<close>

definition november_only :: frame where
  "november_only =
     [mkbar ((2023, 11, 29), (0, 0, 0)) 102 98 101 1000000,
      mkbar ((2023, 11, 30), (0, 0, 0)) 102 98 101 1000000]"

definition default_params :: XmasParams where
  "default_params =
     \<lparr>year = 2023, symbol = ''TEST'', buy_days = 5, sell_days = 10,
      sell_execution_time = (10, 30)\<rparr>"

definition november_buys :: "order list" where
  "november_buys =
     [\<lparr>time = ((2023, 11, 29), (0, 0, 0)), side = ''BUY'', qty = 49, price = 101, val = - 4949\<rparr>,
      \<lparr>time = ((2023, 11, 30), (0, 0, 0)), side = ''BUY'', qty = 49, price = 101, val = - 4949\<rparr>]"







section \<open>Timestamps: order facts\<close>

lemma date_before_midnight: "ts < midnight d \<longleftrightarrow> date_of ts < d"
  by (cases ts) (auto simp add: midnight_def date_of_def less_prod_def)

lemma midnight_less_iff: "midnight a < midnight b \<longleftrightarrow> a < b"
  by (simp add: date_before_midnight) (simp add: midnight_def date_of_def)

lemma date_after_imp: "d < date_of ts \<Longrightarrow> midnight d < ts"
  by (cases ts) (auto simp add: midnight_def date_of_def less_prod_def)

lemma date_of_midnight: "date_of (midnight d) = d"
  by (simp add: midnight_def date_of_def)

section \<open>Calendar resolver: properties\<close>

text \<open>
  What the two selectors return for a non-negative count: \<open>pick_first_n\<close> takes the first
  \<open>min n (length xs)\<close> entries also for \<open>n = 0\<close>; \<open>pick_last_n\<close> keeps the last
  \<open>min n (length xs)\<close> entries for \<open>n > 0\<close>, and the whole list for \<open>n = 0\<close>,
  because the slice \<^verbatim>\<open>dates[-0:]\<close> starts at index 0.
\<close>

lemma pick_last_n_zero: "pick_last_n xs 0 = xs"
  by (simp add: pick_last_n_def py_slice_from_def)

lemma pick_last_n_pos:
  "0 < n \<Longrightarrow> pick_last_n xs n = drop (length xs - min (nat n) (length xs)) xs"
  by (auto simp add: pick_last_n_def py_slice_from_def min_def nat_diff_distrib' nat_le_iff)

lemma pick_first_n_nonneg:
  "0 \<le> n \<Longrightarrow> pick_first_n xs n = take (min (nat n) (length xs)) xs"
  by (auto simp add: pick_first_n_def py_slice_to_def min_def)

lemma pick_first_n_Nil: "pick_first_n [] n = []"
  by (simp add: pick_first_n_def py_slice_to_def)

lemma set_pick_last_n: "set (pick_last_n xs n) \<subseteq> set xs"
  by (auto simp add: pick_last_n_def py_slice_from_def dest: in_set_dropD)

lemma set_pick_first_n: "set (pick_first_n xs n) \<subseteq> set xs"
  by (auto simp add: pick_first_n_def py_slice_to_def dest: in_set_takeD)

lemma year_dates_iff:
  "d \<in> set (year_dates df y) \<longleftrightarrow>
     (\<exists>b\<in>set df. year_of (stamp b) = y \<and> d = midnight (date_of (stamp b)))"
  by (auto simp add: year_dates_def)

lemma year_dates_on_date:
  "d \<in> set (year_dates df y) \<Longrightarrow> on_date df (date_of d) \<noteq> []"
  by (auto simp add: year_dates_iff on_date_def date_of_midnight filter_empty_conv)

text \<open>Every date the resolver returns is a date of the series in the anchor's year, on
  the right side of the anchor.\<close>

lemma resolver_Inr:
  assumes "get_trading_days_around_date df a bn an = Inr (pre, post)"
  shows "(\<forall>d\<in>set pre. d < a \<and> d \<in> set (year_dates df (year_of a))) \<and>
         (\<forall>d\<in>set post. a < d \<and> d \<in> set (year_dates df (year_of a)))"
proof -
  let ?dates = "year_dates df (year_of a)"
  from assms have pre: "pre = pick_last_n (filter (\<lambda>d. d < a) ?dates) bn"
    and post: "post = pick_first_n (filter (\<lambda>d. a < d) ?dates) an"
    by (auto simp add: get_trading_days_around_date_def Let_def split: if_splits)
  have "set pre \<subseteq> set (filter (\<lambda>d. d < a) ?dates)"
    unfolding pre by (rule set_pick_last_n)
  moreover have "set post \<subseteq> set (filter (\<lambda>d. a < d) ?dates)"
    unfolding post by (rule set_pick_first_n)
  ultimately show ?thesis by auto
qed

text \<open>
  C3 (calendar resolver). The claim has \<^verbatim>\<open>before_n = 0\<close> yield an empty
  \<^verbatim>\<open>pre_dates\<close>. On a series with bars on December 21, 22, 27 and 28, anchored at
  December 25 with both counts 0, the resolver returns December 21 and 22 as pre-dates
  (and, as claimed, no post-date).
\<close>

theorem resolver_zero_before_returns_all:
  "get_trading_days_around_date xmas_week (midnight (2023, 12, 25)) 0 0
     = Inr ([midnight (2023, 12, 21), midnight (2023, 12, 22)], [])"
  by (simp add: get_trading_days_around_date_def xmas_week_def mkbar_def year_dates_def
      midnight_def year_of_def date_of_def pick_last_n_def pick_first_n_def
      py_slice_from_def py_slice_to_def)

section \<open>Execution-bar locator: properties\<close>

lemma feb_no_data:
  "find_execution_bar df d t = Inl RuntimeError \<longleftrightarrow> on_date df (date_of d) = []"
  by (simp add: find_execution_bar_def make_timestamp_def Let_def)

lemma feb_only_error:
  "valid_hhmm t \<Longrightarrow> find_execution_bar df d t = Inl e \<Longrightarrow>
   e = RuntimeError \<and> on_date df (date_of d) = []"
  by (simp add: find_execution_bar_def make_timestamp_def Let_def split: if_splits)

lemma feb_single:
  "on_date df (date_of d) = [b] \<Longrightarrow> find_execution_bar df d t = Inr (stamp b)"
  by (simp add: find_execution_bar_def Let_def)

lemma filter_first_hit:
  "xs = pre @ s # post \<Longrightarrow> \<forall>x\<in>set pre. \<not> P x \<Longrightarrow> P s \<Longrightarrow> filter P xs = s # filter P post"
  by (induction pre arbitrary: xs) auto

lemma feb_first_later:
  assumes "valid_hhmm t"
    and "length (on_date df (date_of d)) \<noteq> 1"
    and "map stamp (on_date df (date_of d)) = pre @ s # post"
    and "\<forall>x\<in>set pre. x < at_clock (date_of d) t"
    and "at_clock (date_of d) t \<le> s"
  shows "find_execution_bar df d t = Inr s"
proof -
  have ne: "on_date df (date_of d) \<noteq> []" using assms(3) by auto
  have "filter (\<lambda>x. at_clock (date_of d) t \<le> x) (map stamp (on_date df (date_of d)))
        = s # filter (\<lambda>x. at_clock (date_of d) t \<le> x) post"
    using filter_first_hit [OF assms(3), of "\<lambda>x. at_clock (date_of d) t \<le> x"] assms(4,5)
    by (auto simp add: not_le)
  then show ?thesis using ne assms(1,2)
    by (simp add: find_execution_bar_def make_timestamp_def Let_def)
qed

lemma feb_late_fallback:
  assumes "valid_hhmm t"
    and "1 < length (on_date df (date_of d))"
    and "\<forall>b\<in>set (on_date df (date_of d)). stamp b < at_clock (date_of d) t"
  shows "find_execution_bar df d t = Inr (stamp (last (on_date df (date_of d))))"
proof -
  have "filter (\<lambda>x. at_clock (date_of d) t \<le> x) (map stamp (on_date df (date_of d))) = []"
    using assms(3) by (auto simp add: filter_empty_conv not_le)
  moreover have "on_date df (date_of d) \<noteq> []" using assms(2) by auto
  ultimately show ?thesis using assms(1,2)
    by (simp add: find_execution_bar_def make_timestamp_def Let_def)
qed

text \<open>Whatever the locator returns is the timestamp of a bar of the target day.\<close>

lemma feb_Inr_in_day:
  assumes "find_execution_bar df d t = Inr ts"
  shows "ts \<in> stamp ` set (on_date df (date_of d))"
proof -
  let ?day = "on_date df (date_of d)"
  from assms have ne: "?day \<noteq> []"
    by (auto simp add: find_execution_bar_def)
  show ?thesis
  proof (cases "length ?day = 1")
    case True
    with assms ne have "ts = stamp (hd ?day)"
      by (simp add: find_execution_bar_def Let_def)
    with ne show ?thesis by simp
  next
    case False
    with assms ne obtain target where mk: "make_timestamp (date_of d) t = Inr target"
      by (auto simp add: find_execution_bar_def Let_def split: sum.splits)
    let ?later = "filter (\<lambda>x. target \<le> x) (map stamp ?day)"
    show ?thesis
    proof (cases "?later = []")
      case True
      with assms ne False mk have "ts = stamp (last ?day)"
        by (simp add: find_execution_bar_def Let_def)
      with ne show ?thesis by simp
    next
      case nonempty: False
      then have "hd ?later \<in> set ?later" by (rule hd_in_set)
      then have "hd ?later \<in> stamp ` set ?day" by auto
      moreover from assms ne False mk nonempty have "ts = hd ?later"
        by (simp add: find_execution_bar_def Let_def)
      ultimately show ?thesis by simp
    qed
  qed
qed

lemma feb_Inr_date:
  assumes "find_execution_bar df d t = Inr ts"
  shows "\<exists>b\<in>set df. stamp b = ts \<and> date_of ts = date_of d"
  using feb_Inr_in_day [OF assms] by (auto simp add: on_date_def)

lemma feb_bar_of_day:
  assumes "valid_hhmm t" and "on_date df (date_of d) \<noteq> []"
  shows "\<exists>b\<in>set df. date_of (stamp b) = date_of d \<and> find_execution_bar df d t = Inr (stamp b)"
proof -
  let ?day = "on_date df (date_of d)"
  let ?later = "filter (\<lambda>x. at_clock (date_of d) t \<le> x) (map stamp ?day)"
  have "\<exists>ts. find_execution_bar df d t = Inr ts"
  proof (cases "length ?day = 1")
    case True
    with assms(2) have "find_execution_bar df d t = Inr (stamp (hd ?day))"
      by (simp add: find_execution_bar_def Let_def)
    then show ?thesis ..
  next
    case False
    show ?thesis
    proof (cases "?later = []")
      case True
      with assms False have "find_execution_bar df d t = Inr (stamp (last ?day))"
        by (simp add: find_execution_bar_def make_timestamp_def Let_def)
      then show ?thesis ..
    next
      case nonempty: False
      with assms False have "find_execution_bar df d t = Inr (hd ?later)"
        by (simp add: find_execution_bar_def make_timestamp_def Let_def)
      then show ?thesis ..
    qed
  qed
  then obtain ts where r: "find_execution_bar df d t = Inr ts" ..
  from feb_Inr_date [OF r] r show ?thesis by auto
qed

text \<open>With a time string that is no clock time, a day of two or more bars makes the
  locator raise the error of the timestamp constructor.\<close>

lemma feb_bad_time:
  "\<not> valid_hhmm t \<Longrightarrow> 1 < length (on_date df (date_of d)) \<Longrightarrow>
   find_execution_bar df d t = Inl ValueError"
  by (auto simp add: find_execution_bar_def make_timestamp_def Let_def)

text \<open>
  C9 (execution-bar locator). For a requested time of day (an hour below 24 and a
  minute below 60), \<open>find_execution_bar\<close> fails with the no-data error exactly when
  the series has no bar on the target date, and with no other error. When the day has
  exactly one bar it returns that bar. Otherwise it returns the first bar of the day at
  or after the target timestamp (every bar of the day before it lies before the
  target), and the last bar of the day when every bar lies before the target. Whenever
  the day has a bar, the result is the timestamp of a bar of that day.
\<close>

theorem find_execution_bar_cases:
  assumes "valid_hhmm t"
  shows
  "(find_execution_bar df d t = Inl RuntimeError \<longleftrightarrow> on_date df (date_of d) = []) \<and>
   (\<forall>e. find_execution_bar df d t = Inl e \<longrightarrow> e = RuntimeError) \<and>
   (\<forall>b. on_date df (date_of d) = [b] \<longrightarrow> find_execution_bar df d t = Inr (stamp b)) \<and>
   (\<forall>pre s post.
      length (on_date df (date_of d)) \<noteq> 1 \<and>
      map stamp (on_date df (date_of d)) = pre @ s # post \<and>
      (\<forall>x\<in>set pre. x < at_clock (date_of d) t) \<and> at_clock (date_of d) t \<le> s
      \<longrightarrow> find_execution_bar df d t = Inr s) \<and>
   (1 < length (on_date df (date_of d)) \<and>
      (\<forall>b\<in>set (on_date df (date_of d)). stamp b < at_clock (date_of d) t)
      \<longrightarrow> find_execution_bar df d t = Inr (stamp (last (on_date df (date_of d))))) \<and>
   (on_date df (date_of d) \<noteq> [] \<longrightarrow>
      (\<exists>b\<in>set df. date_of (stamp b) = date_of d \<and> find_execution_bar df d t = Inr (stamp b)))"
  using feb_no_data [of df d t] feb_only_error [OF assms, of df d]
    feb_single [of df d _ t] feb_first_later [OF assms, of df d]
    feb_late_fallback [OF assms, of df d] feb_bar_of_day [OF assms, of df d]
  by blast

theorem find_execution_bar_cases_witness:
  "valid_hhmm (10, 30) \<and> valid_hhmm (17, 0) \<and> valid_hhmm (9, 0) \<and>
   find_execution_bar gap_day ((2023, 6, 15), (0, 0, 0)) (10, 30) = Inr ((2023, 6, 15), (11, 0, 0)) \<and>
   find_execution_bar gap_day ((2023, 6, 15), (0, 0, 0)) (17, 0) = Inr ((2023, 6, 15), (16, 0, 0)) \<and>
   find_execution_bar gap_day ((2023, 6, 15), (0, 0, 0)) (9, 0) = Inr ((2023, 6, 15), (9, 30, 0)) \<and>
   find_execution_bar gap_day ((2023, 6, 16), (0, 0, 0)) (10, 30) = Inl RuntimeError"
proof -
  let ?d = "((2023, 6, 15), (0, 0, 0)) :: timestamp"
  have v1: "valid_hhmm (10, 30)" and v2: "valid_hhmm (17, 0)" and v3: "valid_hhmm (9, 0)"
    by (simp_all add: valid_hhmm_def)
  have day: "on_date gap_day (date_of ?d) = gap_day"
    by (simp add: gap_day_def mkbar_def on_date_def date_of_def)
  have none: "on_date gap_day (date_of ((2023, 6, 16), (0, 0, 0))) = []"
    by (simp add: gap_day_def mkbar_def on_date_def date_of_def)
  have a: "find_execution_bar gap_day ?d (10, 30) = Inr ((2023, 6, 15), (11, 0, 0))"
    using find_execution_bar_cases [OF v1, of gap_day ?d]
    apply (simp only: day)
    apply (elim conjE)
    apply (erule allE [of _ "[((2023, 6, 15), (9, 30, 0)), ((2023, 6, 15), (10, 0, 0))]"])
    apply (erule allE [of _ "((2023, 6, 15), (11, 0, 0))"])
    apply (erule allE [of _ "[((2023, 6, 15), (16, 0, 0))]"])
    apply (simp add: gap_day_def mkbar_def at_clock_def date_of_def)
    done
  have b: "find_execution_bar gap_day ?d (17, 0) = Inr ((2023, 6, 15), (16, 0, 0))"
    using find_execution_bar_cases [OF v2, of gap_day ?d]
    by (simp add: day) (simp add: gap_day_def mkbar_def at_clock_def date_of_def)
  have c: "find_execution_bar gap_day ?d (9, 0) = Inr ((2023, 6, 15), (9, 30, 0))"
    using find_execution_bar_cases [OF v3, of gap_day ?d]
    apply (simp only: day)
    apply (elim conjE)
    apply (erule allE [of _ "[]"])
    apply (erule allE [of _ "((2023, 6, 15), (9, 30, 0))"])
    apply (erule allE [of _ "[((2023, 6, 15), (10, 0, 0)), ((2023, 6, 15), (11, 0, 0)),
        ((2023, 6, 15), (16, 0, 0))]"])
    apply (simp add: gap_day_def mkbar_def at_clock_def date_of_def)
    done
  have e: "find_execution_bar gap_day ((2023, 6, 16), (0, 0, 0)) (10, 30) = Inl RuntimeError"
    using find_execution_bar_cases [OF v1, of gap_day "((2023, 6, 16), (0, 0, 0))"]
    by (simp add: none)
  show ?thesis using v1 v2 v3 a b c e by simp
qed

section \<open>Order generator: properties\<close>

lemmas generator_eval = generate_orders_def xmas_of_def get_trading_days_around_date_def
  year_dates_def midnight_def year_of_def date_of_def pick_last_n_def pick_first_n_def
  py_slice_from_def py_slice_to_def buy_body_def sell_body_def on_date_def loc_Close_def
  find_execution_bar_def make_timestamp_def valid_hhmm_def at_clock_def mkbar_def Let_def

subsection \<open>What one pass of each loop does to the state\<close>

lemma buy_body_step:
  assumes "buy_body df alloc d st = Inr st'"
  shows "st' = st \<or>
         (\<exists>ord. st_orders st' = st_orders st @ [ord] \<and> side ord = ''BUY'' \<and>
                date_of (time ord) = date_of d \<and> 0 < qty ord \<and>
                st_position st' = st_position st + qty ord)"
proof -
  let ?bars = "on_date df (date_of d)"
  from assms have ne: "?bars \<noteq> []"
    by (auto simp add: buy_body_def Let_def split: if_splits)
  then have "last ?bars \<in> set ?bars" by (rule last_in_set)
  then have dt: "date_of (stamp (last ?bars)) = date_of d"
    by (simp add: on_date_def)
  from assms ne dt show ?thesis
    by (auto simp add: buy_body_def Let_def split: if_splits sum.splits)
qed

lemma sell_body_step:
  assumes "sell_body df p i d st = Inr st'"
  shows "st' = st \<or>
         (\<exists>ord. st_orders st' = st_orders st @ [ord] \<and> side ord = ''SELL'' \<and>
                date_of (time ord) = date_of d \<and> 0 < qty ord \<and>
                st_position st' = st_position st - qty ord)"
  using assms
  by (auto simp add: sell_body_def Let_def split: if_splits sum.splits dest!: feb_Inr_date)

lemma buy_loop_orders:
  assumes "buy_loop df alloc ds st = Inr st'" and "ord \<in> set (st_orders st')"
  shows "ord \<in> set (st_orders st) \<or>
         (side ord = ''BUY'' \<and> (\<exists>d\<in>set ds. date_of (time ord) = date_of d))"
  using assms
proof (induction ds arbitrary: st)
  case Nil
  then show ?case by simp
next
  case (Cons d ds)
  from Cons.prems(1) obtain st1 where b: "buy_body df alloc d st = Inr st1"
    and l: "buy_loop df alloc ds st1 = Inr st'"
    by (auto split: sum.splits)
  from Cons.IH [OF l Cons.prems(2)] buy_body_step [OF b] show ?case by auto
qed

lemma sell_loop_orders:
  assumes "sell_loop df p i ds st = Inr st'" and "ord \<in> set (st_orders st')"
  shows "ord \<in> set (st_orders st) \<or>
         (side ord = ''SELL'' \<and> (\<exists>d\<in>set ds. date_of (time ord) = date_of d))"
  using assms
proof (induction ds arbitrary: st i)
  case Nil
  then show ?case by simp
next
  case (Cons d ds)
  show ?case
  proof (cases "st_position st \<le> 0")
    case True
    with Cons.prems show ?thesis by simp
  next
    case False
    with Cons.prems(1) obtain st1 where b: "sell_body df p i d st = Inr st1"
      and l: "sell_loop df p (i + 1) ds st1 = Inr st'"
      by (auto split: sum.splits)
    from Cons.IH [OF l Cons.prems(2)] sell_body_step [OF b] show ?thesis by auto
  qed
qed

text \<open>Every generated order is a BUY on a resolved buy date or a SELL on a resolved
  sell date.\<close>

lemma generate_orders_origin:
  assumes "generate_orders df cash p = Inr orders" and "ord \<in> set orders"
  shows "\<exists>buy_dates sell_dates.
           get_trading_days_around_date df (xmas_of p) (buy_days p) (sell_days p)
             = Inr (buy_dates, sell_dates) \<and>
           ((side ord = ''BUY'' \<and> (\<exists>d\<in>set buy_dates. date_of (time ord) = date_of d)) \<or>
            (side ord = ''SELL'' \<and> (\<exists>d\<in>set sell_dates. date_of (time ord) = date_of d)))"
proof -
  from assms(1) obtain buy_dates sell_dates
    where r: "get_trading_days_around_date df (xmas_of p) (buy_days p) (sell_days p)
               = Inr (buy_dates, sell_dates)"
    by (auto simp add: generate_orders_def split: sum.splits)
  let ?alloc = "cash / real (max (length buy_dates) 1)"
  from assms(1) r obtain st1
    where b: "buy_loop df ?alloc buy_dates \<lparr>st_orders = [], st_cash = cash, st_position = 0\<rparr>
               = Inr st1"
    by (auto simp add: generate_orders_def Let_def split: sum.splits)
  from assms(1) r b obtain st2 where s: "sell_loop df p 1 sell_dates st1 = Inr st2"
    by (auto simp add: generate_orders_def Let_def split: sum.splits)
  from assms(1) r b s have "set orders = set (st_orders st2)"
    by (auto simp add: generate_orders_def Let_def split: if_splits)
  with assms(2) have "ord \<in> set (st_orders st2)" by simp
  from sell_loop_orders [OF s this] buy_loop_orders [OF b, of ord] r show ?thesis
    by auto
qed

subsection \<open>Ladder ordering\<close>

text \<open>
  C8 (ladder ordering). In every order list \<open>generate_orders\<close> returns, each BUY has a
  timestamp strictly before December 25 (00:00) of the strategy year and each SELL a
  timestamp strictly after it.
\<close>

theorem ladder_ordering:
  assumes "generate_orders df cash p = Inr orders" and "ord \<in> set orders"
  shows "(side ord = ''BUY'' \<longrightarrow> time ord < midnight (year p, 12, 25)) \<and>
         (side ord = ''SELL'' \<longrightarrow> midnight (year p, 12, 25) < time ord)"
proof -
  let ?x = "midnight (year p, 12, 25)"
  from generate_orders_origin [OF assms] obtain buy_dates sell_dates
    where r: "get_trading_days_around_date df ?x (buy_days p) (sell_days p)
               = Inr (buy_dates, sell_dates)"
      and o: "(side ord = ''BUY'' \<and> (\<exists>d\<in>set buy_dates. date_of (time ord) = date_of d)) \<or>
              (side ord = ''SELL'' \<and> (\<exists>d\<in>set sell_dates. date_of (time ord) = date_of d))"
    by (auto simp add: xmas_of_def)
  note dates = resolver_Inr [OF r]
  from o show ?thesis
  proof
    assume buy: "side ord = ''BUY'' \<and> (\<exists>d\<in>set buy_dates. date_of (time ord) = date_of d)"
    then obtain d where d: "d \<in> set buy_dates" "date_of (time ord) = date_of d" by blast
    with dates have "d < ?x" by blast
    then have "date_of d < (year p, 12, 25)" by (simp add: date_before_midnight)
    with d have "time ord < ?x" by (simp add: date_before_midnight)
    with buy show ?thesis by simp
  next
    assume sell: "side ord = ''SELL'' \<and> (\<exists>d\<in>set sell_dates. date_of (time ord) = date_of d)"
    then obtain d where d: "d \<in> set sell_dates" "date_of (time ord) = date_of d" by blast
    with dates have lt: "?x < d" and yd: "d \<in> set (year_dates df (year_of ?x))" by blast+
    from yd have "\<exists>dd. d = midnight dd" unfolding year_dates_iff by blast
    then obtain dd where dd: "d = midnight dd" ..
    with lt have "(year p, 12, 25) < dd" by (simp add: midnight_less_iff)
    with d dd have "?x < time ord" by (simp add: date_after_imp date_of_midnight)
    with sell show ?thesis by simp
  qed
qed

theorem ladder_ordering_witness:
  "generate_orders xmas_week 100 ladder_params = Inr ladder_orders \<and>
   ladder_orders ! 1 \<in> set ladder_orders \<and> ladder_orders ! 2 \<in> set ladder_orders \<and>
   side (ladder_orders ! 1) = ''BUY'' \<and>
   time (ladder_orders ! 1) < midnight (2023, 12, 25) \<and>
   side (ladder_orders ! 2) = ''SELL'' \<and>
   midnight (2023, 12, 25) < time (ladder_orders ! 2)"
proof -
  have run: "generate_orders xmas_week 100 ladder_params = Inr ladder_orders"
    by (simp add: generator_eval xmas_week_def ladder_params_def ladder_orders_def)
  have m1: "ladder_orders ! 1 \<in> set ladder_orders"
    and m2: "ladder_orders ! 2 \<in> set ladder_orders"
    by (simp_all add: ladder_orders_def)
  have s: "side (ladder_orders ! 1) = ''BUY''" "side (ladder_orders ! 2) = ''SELL''"
    "year ladder_params = 2023"
    by (simp_all add: ladder_orders_def ladder_params_def)
  from ladder_ordering [OF run m1] ladder_ordering [OF run m2] run m1 m2 s
  show ?thesis by simp
qed

subsection \<open>Full liquidation\<close>

lemma sell_body_last:
  assumes "i = sell_days p" and "0 < st_position st" and "sell_body df p i d st = Inr st'"
  shows "st_position st' = 0 \<and>
         (\<exists>ord. st_orders st' = st_orders st @ [ord] \<and> side ord = ''SELL'' \<and>
                qty ord = st_position st)"
  using assms
  by (auto simp add: sell_body_def Let_def split: sum.splits)

lemma sell_loop_done: "st_position st \<le> 0 \<Longrightarrow> sell_loop df p i ds st = Inr st"
  by (cases ds) simp_all

text \<open>
  C7 (full liquidation). When the sell loop reaches the date of 1-based index
  \<open>i = sell_days\<close> with a position still above zero (so it did not break), and the loop
  returns, then the pass for that date sells the whole position: the position right
  after it is 0, the order appended is a SELL of the position held before, and that
  state is the loop's result.
\<close>

theorem full_liquidation_at_last_sell_date:
  assumes "i = sell_days p"
    and "0 < st_position st"
    and "sell_loop df p i (d # ds) st = Inr st'"
  shows "sell_body df p i d st = Inr st' \<and> st_position st' = 0 \<and>
         (\<exists>ord. st_orders st' = st_orders st @ [ord] \<and> side ord = ''SELL'' \<and>
                qty ord = st_position st)"
proof -
  from assms(2,3) obtain st1 where body: "sell_body df p i d st = Inr st1"
    and rest: "sell_loop df p (i + 1) ds st1 = Inr st'"
    by (auto split: sum.splits)
  note last = sell_body_last [OF assms(1,2) body]
  then have "sell_loop df p (i + 1) ds st1 = Inr st1"
    by (simp add: sell_loop_done)
  with rest have "st' = st1" by simp
  with body last show ?thesis by simp
qed

theorem full_liquidation_at_last_sell_date_witness:
  "(1::int) = sell_days one_day_exit \<and> 0 < st_position holding_ten \<and>
   sell_loop xmas_week one_day_exit 1 [midnight (2023, 12, 27), midnight (2023, 12, 28)]
     holding_ten = Inr sold_ten \<and>
   st_position sold_ten = 0"
proof -
  have i: "(1::int) = sell_days one_day_exit" by (simp add: one_day_exit_def)
  have pos: "0 < st_position holding_ten" by (simp add: holding_ten_def)
  have run: "sell_loop xmas_week one_day_exit 1
               [midnight (2023, 12, 27), midnight (2023, 12, 28)] holding_ten = Inr sold_ten"
    by (simp add: generator_eval xmas_week_def one_day_exit_def holding_ten_def sold_ten_def)
  from full_liquidation_at_last_sell_date [OF i pos run] i pos run show ?thesis by simp
qed

subsection \<open>A series without December\<close>

lemma filter_stamp_distinct:
  "distinct (map stamp df) \<Longrightarrow> b \<in> set df \<Longrightarrow> filter (\<lambda>x. stamp x = stamp b) df = [b]"
proof (induction df)
  case Nil
  then show ?case by simp
next
  case (Cons a df)
  show ?case
  proof (cases "a = b")
    case True
    with Cons.prems have "stamp b \<notin> stamp ` set df" by simp
    then have "\<forall>x\<in>set df. stamp x \<noteq> stamp b" by (metis imageI)
    then have "filter (\<lambda>x. stamp x = stamp b) df = []" by (simp add: filter_empty_conv)
    with True show ?thesis by simp
  next
    case False
    with Cons.prems have "b \<in> set df" "stamp a \<noteq> stamp b" by auto
    with Cons show ?thesis by simp
  qed
qed

lemma loc_Close_distinct:
  "distinct (map stamp df) \<Longrightarrow> b \<in> set df \<Longrightarrow> loc_Close df (stamp b) = Inr (Close b)"
  by (simp add: loc_Close_def filter_stamp_distinct)

lemma loc_Close_Inr: "loc_Close df ts = Inr px \<Longrightarrow> \<exists>b\<in>set df. px = Close b"
proof -
  assume "loc_Close df ts = Inr px"
  then obtain b where f: "filter (\<lambda>x. stamp x = ts) df = [b]" and px: "px = Close b"
    by (auto simp add: loc_Close_def split: list.splits)
  from f have "b \<in> set (filter (\<lambda>x. stamp x = ts) df)" by simp
  with px show ?thesis by auto
qed

text \<open>On a series with unique timestamps and positive closes, the buy loop raises nothing
  on dates of the series.\<close>

lemma buy_body_total:
  assumes "distinct (map stamp df)" and "\<forall>b\<in>set df. 0 < Close b"
    and "on_date df (date_of d) \<noteq> []"
  shows "\<exists>st'. buy_body df alloc d st = Inr st'"
proof -
  let ?bars = "on_date df (date_of d)"
  have "last ?bars \<in> set ?bars" using assms(3) by (rule last_in_set)
  then have mem: "last ?bars \<in> set df" by (simp add: on_date_def)
  from loc_Close_distinct [OF assms(1) mem] assms(2) mem
  have "loc_Close df (stamp (last ?bars)) = Inr (Close (last ?bars))"
    and "Close (last ?bars) \<noteq> 0" by auto
  with assms(3) show ?thesis by (simp add: buy_body_def Let_def)
qed

lemma buy_loop_total:
  assumes "distinct (map stamp df)" and "\<forall>b\<in>set df. 0 < Close b"
    and "\<forall>d\<in>set ds. on_date df (date_of d) \<noteq> []"
  shows "\<exists>st'. buy_loop df alloc ds st = Inr st'"
  using assms(3)
proof (induction ds arbitrary: st)
  case Nil
  then show ?case by simp
next
  case (Cons d ds)
  then have "on_date df (date_of d) \<noteq> []" by simp
  from buy_body_total [OF assms(1,2) this, of alloc st]
  obtain st1 where "buy_body df alloc d st = Inr st1" by blast
  moreover from Cons obtain st2 where "buy_loop df alloc ds st1 = Inr st2" by fastforce
  ultimately show ?case by simp
qed

text \<open>With nothing to allocate, no buy date yields an order.\<close>

lemma buy_body_no_cash:
  assumes "alloc \<le> 0" and "\<forall>b\<in>set df. 0 < Close b" and "buy_body df alloc d st = Inr st'"
  shows "st' = st"
proof -
  let ?ts = "stamp (last (on_date df (date_of d)))"
  from assms(3) obtain px where px: "loc_Close df ?ts = Inr px"
    by (auto simp add: buy_body_def Let_def split: if_splits sum.splits)
  from loc_Close_Inr [OF px] assms(2) have "0 < px" by auto
  with assms(1) have "alloc / px \<le> 0" by (simp add: divide_le_0_iff)
  then have "\<lfloor>alloc / px\<rfloor> \<le> 0" by (simp add: floor_le_iff)
  with assms(3) px show ?thesis
    by (auto simp add: buy_body_def Let_def split: if_splits)
qed

lemma buy_loop_no_cash:
  assumes "alloc \<le> 0" and "\<forall>b\<in>set df. 0 < Close b"
  shows "buy_loop df alloc ds st = Inr st' \<Longrightarrow> st' = st"
proof (induction ds arbitrary: st)
  case Nil
  then show ?case by simp
next
  case (Cons d ds)
  from Cons.prems obtain st1 where b: "buy_body df alloc d st = Inr st1"
    and l: "buy_loop df alloc ds st1 = Inr st'"
    by (auto split: sum.splits)
  from buy_body_no_cash [OF assms b] Cons.IH [OF l] show ?case by simp
qed

lemma no_december_before_xmas:
  assumes "\<forall>b\<in>set df. year_of (stamp b) = y \<longrightarrow> month_of (stamp b) \<le> 11"
    and "d \<in> set (year_dates df y)"
  shows "d < midnight (y, 12, 25)"
proof -
  from assms(2) obtain b where b: "b \<in> set df" "year_of (stamp b) = y"
    "d = midnight (date_of (stamp b))"
    unfolding year_dates_iff by blast
  with assms(1) have "month_of (stamp b) \<le> 11" by blast
  with b(2) have "date_of (stamp b) < (y, 12, 25)"
    by (cases "stamp b") (auto simp add: date_of_def year_of_def month_of_def less_prod_def)
  with b(3) show ?thesis by (simp add: midnight_less_iff)
qed

text \<open>
  C4 (calendar boundary), as the claim states it, fails: on a series whose bars of 2023
  are November 29 and 30, with cash 10000 and the default parameters,
  \<open>generate_orders\<close> returns two BUY orders, not an empty table. The last trading days
  before December 25 that the data holds are the buy dates, whatever their month.
\<close>

theorem november_series_buys_counterexample:
  "month_of (stamp (november_only ! 0)) = 11 \<and> month_of (stamp (november_only ! 1)) = 11 \<and>
   length november_only = 2 \<and>
   generate_orders november_only 10000 default_params = Inr november_buys \<and>
   november_buys \<noteq> []"
  by (simp add: generator_eval month_of_def november_only_def default_params_def
      november_buys_def)

text \<open>
  C4, amended. For every series with unique timestamps and positive closes that has a
  bar in the strategy year and none of that year in December, and for every cash
  amount, \<open>generate_orders\<close> raises nothing and returns an order table that holds BUY
  orders only (no SELL); the table is empty when the cash is zero or negative.
\<close>

theorem generate_orders_without_december:
  assumes "\<exists>b\<in>set df. year_of (stamp b) = year p"
    and "\<forall>b\<in>set df. year_of (stamp b) = year p \<longrightarrow> month_of (stamp b) \<le> 11"
    and "distinct (map stamp df)"
    and "\<forall>b\<in>set df. 0 < Close b"
  shows "\<exists>orders. generate_orders df cash p = Inr orders \<and>
           (\<forall>ord\<in>set orders. side ord = ''BUY'') \<and>
           (cash \<le> 0 \<longrightarrow> orders = [])"
proof -
  let ?x = "midnight (year p, 12, 25)"
  let ?dates = "year_dates df (year p)"
  let ?pre = "pick_last_n (filter (\<lambda>d. d < ?x) ?dates) (buy_days p)"
  let ?init = "\<lparr>st_orders = [], st_cash = cash, st_position = 0\<rparr>"
  let ?alloc = "cash / real (max (length ?pre) 1)"
  have yx: "year_of ?x = year p" by (simp add: year_of_def midnight_def)
  have "\<not> ?x < d" if "d \<in> set ?dates" for d
    using no_december_before_xmas [OF assms(2) that] by (simp add: not_less less_imp_le)
  then have "filter (\<lambda>d. ?x < d) ?dates = []"
    by (simp add: filter_empty_conv)
  then have post: "pick_first_n (filter (\<lambda>d. ?x < d) ?dates) (sell_days p) = []"
    by (simp add: pick_first_n_Nil)
  from assms(1) have "filter (\<lambda>b. year_of (stamp b) = year p) df \<noteq> []"
    by (auto simp add: filter_empty_conv)
  with post yx have r: "get_trading_days_around_date df (xmas_of p) (buy_days p) (sell_days p)
      = Inr (?pre, [])"
    by (simp add: get_trading_days_around_date_def xmas_of_def Let_def)
  have "set ?pre \<subseteq> set ?dates"
    using set_pick_last_n [of "filter (\<lambda>d. d < ?x) ?dates"] by auto
  then have "\<forall>d\<in>set ?pre. on_date df (date_of d) \<noteq> []"
    using year_dates_on_date by blast
  from buy_loop_total [OF assms(3,4) this, of ?alloc ?init]
  obtain st1 where b: "buy_loop df ?alloc ?pre ?init = Inr st1" by blast
  let ?orders = "if st_orders st1 = [] then [] else sort_key time (st_orders st1)"
  from r b have g: "generate_orders df cash p = Inr ?orders"
    by (simp add: generate_orders_def Let_def)
  have buys: "\<forall>ord\<in>set ?orders. side ord = ''BUY''"
    using buy_loop_orders [OF b] by (auto split: if_splits)
  have "cash \<le> 0 \<longrightarrow> ?orders = []"
  proof
    assume "cash \<le> 0"
    then have "?alloc \<le> 0" by (simp add: divide_le_0_iff)
    from buy_loop_no_cash [OF this assms(4) b] show "?orders = []" by simp
  qed
  with g buys show ?thesis by blast
qed

theorem generate_orders_without_december_witness:
  "generate_orders november_only 10000 default_params = Inr november_buys \<and>
   side (november_buys ! 0) = ''BUY'' \<and> side (november_buys ! 1) = ''BUY'' \<and>
   length november_buys = 2 \<and>
   generate_orders november_only 0 default_params = Inr []"
proof -
  have h1: "\<exists>b\<in>set november_only. year_of (stamp b) = year default_params"
    by (simp add: november_only_def default_params_def mkbar_def year_of_def)
  have h2: "\<forall>b\<in>set november_only.
      year_of (stamp b) = year default_params \<longrightarrow> month_of (stamp b) \<le> 11"
    by (simp add: november_only_def default_params_def mkbar_def year_of_def month_of_def)
  have h3: "distinct (map stamp november_only)"
    by (simp add: november_only_def mkbar_def)
  have h4: "\<forall>b\<in>set november_only. 0 < Close b"
    by (simp add: november_only_def mkbar_def)
  have run: "generate_orders november_only 10000 default_params = Inr november_buys"
    by (simp add: generator_eval november_only_def default_params_def november_buys_def)
  from generate_orders_without_december [OF h1 h2 h3 h4, of 10000] run
  have a: "side (november_buys ! 0) = ''BUY'' \<and> side (november_buys ! 1) = ''BUY''"
    by (simp add: november_buys_def)
  from generate_orders_without_december [OF h1 h2 h3 h4, of 0]
  have b: "generate_orders november_only 0 default_params = Inr []" by auto
  have "length november_buys = 2" by (simp add: november_buys_def)
  with run a b show ?thesis by simp
qed

section \<open>Execution simulator: properties\<close>

lemmas market_hours_eval = is_market_hours_def strftime_HM_def two_digits_def digit_char_def


subsection \<open>Where an executed order comes from\<close>






subsection \<open>Slippage\<close>








subsection \<open>Orders stamped at midnight\<close>

lemma midnight_not_market_hours:
  "hour_of ts = 0 \<Longrightarrow> minute_of ts = 0 \<Longrightarrow> \<not> is_market_hours ts ''09:30'' ''16:00''"
  by (simp add: market_hours_eval)

lemma execute_one_midnight:
  "hour_of (time ord) = 0 \<Longrightarrow> minute_of (time ord) = 0 \<Longrightarrow>
   execute_one ord market_data slippage chk = Inr None"
  by (simp add: execute_one_def execute_body_def validate_order_timing_def
      midnight_not_market_hours)

lemma execute_loop_midnight:
  "\<forall>ord\<in>set orders. hour_of (time ord) = 0 \<and> minute_of (time ord) = 0 \<Longrightarrow>
   execute_loop orders market_data slippage chk acc = Inr acc"
  by (induction orders arbitrary: acc) (simp_all add: execute_one_midnight)

text \<open>
  C10 (midnight orders). When every intended order has the clock time 00:00,
  \<open>execute_orders\<close> returns the empty table, whatever the market data, the slippage and
  the liquidity switch: \<^verbatim>\<open>"00:00"\<close> is below \<^verbatim>\<open>"09:30"\<close> in the string comparison of
  \<open>is_market_hours\<close>, so timing validation rejects each order.
\<close>

theorem execute_orders_midnight_dropped:
  "\<forall>ord\<in>set orders. hour_of (time ord) = 0 \<and> minute_of (time ord) = 0 \<Longrightarrow>
   execute_orders orders market_data slippage min_liquidity_check = Inr []"
  by (simp add: execute_orders_def execute_loop_midnight)

theorem execute_orders_midnight_dropped_witness:
  "hour_of (time (sample_orders ! 0)) = 0 \<and> minute_of (time (sample_orders ! 0)) = 0 \<and>
   date_of (time (sample_orders ! 0)) = date_of (stamp (daily_bars ! 0)) \<and>
   execute_orders sample_orders daily_bars 1 True = Inr []"
proof -
  have h: "\<forall>ord\<in>set sample_orders. hour_of (time ord) = 0 \<and> minute_of (time ord) = 0"
    by (simp add: sample_orders_def hour_of_def minute_of_def)
  have d: "date_of (time (sample_orders ! 0)) = date_of (stamp (daily_bars ! 0))"
    by (simp add: sample_orders_def daily_bars_def mkbar_def date_of_def)
  from execute_orders_midnight_dropped [OF h, of daily_bars 1 True] h d
  show ?thesis by (simp add: sample_orders_def)
qed

section \<open>Backtest engine: properties\<close>

text \<open>
  C1 (cash-flow conservation). For every non-empty order table and every initial cash,
  the \<^verbatim>\<open>ending_cash\<close> entry of the result of \<open>run_backtest\<close> is the initial cash plus
  the sum of the signed \<^verbatim>\<open>value\<close> column.
\<close>

theorem run_backtest_ending_cash:
  "orders \<noteq> [] \<Longrightarrow>
   run_backtest orders initial_cash ''ending_cash''
     = Some (PyFloat (initial_cash + sum_list (map val orders)))"
  by (simp add: run_backtest_def Let_def)

theorem run_backtest_ending_cash_witness:
  "sample_orders \<noteq> [] \<and>
   run_backtest sample_orders 20000 ''ending_cash'' = Some (PyFloat 7450)"
  using run_backtest_ending_cash [of sample_orders 20000]
  by (simp add: sample_orders_def)

text \<open>
  C5 (zero state). For every \<open>X \<ge> 0\<close>, \<open>run_backtest\<close> on the empty order table returns
  a dictionary (the function has no failing branch) with \<^verbatim>\<open>initial_cash\<close> and
  \<^verbatim>\<open>ending_cash\<close> equal to \<open>X\<close>, and \<^verbatim>\<open>remaining_shares\<close>, \<^verbatim>\<open>pnl\<close> and
  \<^verbatim>\<open>return_pct\<close> equal to zero.
\<close>

theorem run_backtest_empty:
  "0 \<le> X \<Longrightarrow>
   run_backtest [] X ''initial_cash'' = Some (PyFloat X) \<and>
   run_backtest [] X ''ending_cash'' = Some (PyFloat X) \<and>
   run_backtest [] X ''remaining_shares'' = Some (PyInt 0) \<and>
   run_backtest [] X ''pnl'' = Some (PyFloat 0) \<and>
   run_backtest [] X ''return_pct'' = Some (PyFloat 0)"
  by (simp add: run_backtest_def)

theorem run_backtest_empty_witness:
  "(0::real) \<le> 10000 \<and>
   run_backtest ([] :: order list) 10000 ''initial_cash'' = Some (PyFloat 10000) \<and>
   run_backtest ([] :: order list) 10000 ''ending_cash'' = Some (PyFloat 10000) \<and>
   run_backtest ([] :: order list) 10000 ''remaining_shares'' = Some (PyInt 0) \<and>
   run_backtest ([] :: order list) 10000 ''pnl'' = Some (PyFloat 0) \<and>
   run_backtest ([] :: order list) 10000 ''return_pct'' = Some (PyFloat 0)"
  using run_backtest_empty [of 10000, where ?'a = unit] by simp

text \<open>The keys of the two dictionaries \<open>run_backtest\<close> can return.\<close>

lemma run_backtest_nonempty_keys:
  "orders \<noteq> [] \<Longrightarrow>
   dom (run_backtest orders initial_cash) =
     {''orders'', ''initial_cash'', ''ending_cash'', ''remaining_shares'',
      ''remaining_value_mark'', ''total_value'', ''pnl'', ''return_pct''}"
  by (auto simp add: run_backtest_def Let_def)

lemma run_backtest_empty_keys:
  "dom (run_backtest [] initial_cash) =
     {''orders'', ''initial_cash'', ''ending_cash'', ''remaining_shares'',
      ''remaining_value_mark'', ''pnl'', ''return_pct''}"
  by (auto simp add: run_backtest_def)

text \<open>
  C6 (seven result fields). The claim asks for the key \<^verbatim>\<open>total_value\<close> in every
  result. The dictionary returned for the empty order table has no such key, while the
  one returned for a non-empty table has it: evaluated here on the empty table with
  initial cash 10000 and on the fixture orders.
\<close>

theorem run_backtest_empty_lacks_total_value:
  "''total_value'' \<notin> dom (run_backtest ([] :: order list) 10000) \<and>
   ''total_value'' \<in> dom (run_backtest sample_orders 20000)"
  by (simp add: run_backtest_def sample_orders_def Let_def)

end
